theory Spec2Isabelle
  imports Main "HOL-Library.Sublist"
begin

section \<open>google.colab.drive.mount: the pexpect session driver\<close>

text \<open>
  The module has one function, \<^verbatim>\<open>mount(mountpoint, force_remount=False)\<close>. It talks to
  three collaborators that are not part of the repository: the operating system
  (\<^verbatim>\<open>os.path\<close>, \<^verbatim>\<open>os.environ\<close>, \<^verbatim>\<open>os.makedirs\<close>), the pexpect session \<^verbatim>\<open>d\<close> with the bash
  child behind it, and \<^verbatim>\<open>getpass\<close>. The embedding takes their answers as a parameter
  (a \<open>world\<close>) and returns, next to the result of the call, the list of everything
  \<^verbatim>\<open>mount\<close> did, in program order.
\<close>

subsection \<open>Strings and paths\<close>

definition LF :: char where "LF = CHR 0x0A"
definition CR :: char where "CR = CHR 0x0D"
definition DQ :: char where "DQ = CHR 0x22"

text \<open>\<^verbatim>\<open>posixpath.join(a, b)\<close>: an absolute \<open>b\<close> replaces \<open>a\<close>.\<close>

definition join2 :: "string \<Rightarrow> string \<Rightarrow> string" where
  "join2 a b =
     (if b \<noteq> [] \<and> hd b = CHR ''/'' then b
      else if a = [] \<or> last a = CHR ''/'' then a @ b
      else a @ ''/'' @ b)"

text \<open>\<^verbatim>\<open>s.split(sep)[0]\<close> for a non-empty \<open>sep\<close>: the part of \<open>s\<close> before the first \<open>sep\<close>.\<close>

fun split_first :: "string \<Rightarrow> string \<Rightarrow> string" where
  "split_first sep [] = []"
| "split_first sep (c # cs) =
     (if prefix sep (c # cs) then [] else c # split_first sep cs)"

subsection \<open>The collaborators\<close>

text \<open>
  What \<^verbatim>\<open>d.expect\<close> is given: a \<^verbatim>\<open>str\<close> (pexpect compiles it as a regular expression), a
  compiled \<^verbatim>\<open>re\<close> object (kept by its source text), or \<^verbatim>\<open>pexpect.EOF\<close>.
\<close>

datatype pattern = Str string | Regex string | EOF_pattern

text \<open>
  What one \<^verbatim>\<open>d.expect\<close> call comes back with: the index of the pattern that matched
  together with \<^verbatim>\<open>d.match.group(1)\<close>, or one of the two exceptions pexpect raises.
\<close>

datatype verdict = Matched nat string | TimedOut | EndOfFile

datatype error =
    KeyError string
  | ValueError string
  | OSError
  | ExceptionPexpect
  | TIMEOUT
  | EOF
  | EOFError
  | AssertionError

text \<open>The three moments at which \<^verbatim>\<open>mount\<close> looks at the file system.\<close>

datatype moment = AtEntry | AfterMakedirs | AfterCleanup

record filesystem =
  islink :: "string \<Rightarrow> bool"
  isdir :: "string \<Rightarrow> bool"
  exists :: "string \<Rightarrow> bool"
  listdir :: "string \<Rightarrow> string list option"

text \<open>
  \<open>listdir\<close> is \<open>None\<close> when \<^verbatim>\<open>os.listdir\<close> raises \<^verbatim>\<open>OSError\<close>; \<open>getpass\<close> is \<open>None\<close> when
  \<^verbatim>\<open>getpass.getpass\<close> raises \<^verbatim>\<open>EOFError\<close>. \<open>expect_outcome w k ps\<close> is what the \<open>k\<close>-th
  \<^verbatim>\<open>d.expect\<close> call of the run (counted from 0) returns when it watches for \<open>ps\<close>, and
  \<open>getpass w n msg\<close> what the \<open>n\<close>-th prompt returns. \<open>isalive\<close> and \<open>exitstatus\<close> are
  read once, after \<^verbatim>\<open>d.expect(pexpect.EOF)\<close>. \<open>mount_DEBUG\<close> is the attribute
  \<^verbatim>\<open>mount._DEBUG\<close>.
\<close>

record world =
  expanduser :: "string \<Rightarrow> string"
  environ :: "string \<Rightarrow> string option"
  realpath :: "string \<Rightarrow> string"
  fs_at :: "moment \<Rightarrow> filesystem"
  makedirs_ok :: "string \<Rightarrow> bool"
  gethostname :: string
  uuid4_hex :: string
  spawn_ok :: bool
  mount_DEBUG :: bool
  expect_outcome :: "nat \<Rightarrow> pattern list \<Rightarrow> verdict"
  getpass :: "nat \<Rightarrow> string \<Rightarrow> string option"
  isalive :: bool
  exitstatus :: "int option"

subsection \<open>What a run does\<close>

text \<open>
  Every call \<^verbatim>\<open>mount\<close> makes on a collaborator is an event of the run. A query is recorded
  by its argument, a wait by its patterns and by what came back. Sending to the
  session, \<^verbatim>\<open>d.terminate\<close> and \<^verbatim>\<open>print\<close> are taken to return; the calls that can raise are
  the look-ups in \<^verbatim>\<open>os.environ\<close>, \<^verbatim>\<open>os.makedirs\<close>, \<^verbatim>\<open>os.listdir\<close>, \<^verbatim>\<open>pexpect.spawn\<close>, \<^verbatim>\<open>d.expect\<close>,
  \<^verbatim>\<open>getpass\<close> and the two \<^verbatim>\<open>assert\<close> statements. The two-minute limit of a wait is not
  counted: a wait that runs into it is one that comes back with \<open>TimedOut\<close>.
\<close>

datatype event =
    IsDir string
  | IsLink string
  | ListDir string
  | Exists string
  | MakeDirs string
  | Spawn string "string list" "(string \<times> string) list"
  | SetLogfileRead
  | SentLine string
  | Sent string
  | SentControl char
  | Expected "pattern list" verdict
  | Terminated bool
  | GetPass string
  | Print string

record outcome =
  trace :: "event list"
  result :: "error + unit"

text \<open>The calls on the session that a straight stretch of \<^verbatim>\<open>mount\<close> makes.\<close>

datatype call = sendline string | sendcontrol char | expect "pattern list"

definition raised :: "verdict \<Rightarrow> error option" where
  "raised v = (case v of Matched i g \<Rightarrow> None | TimedOut \<Rightarrow> Some TIMEOUT | EndOfFile \<Rightarrow> Some EOF)"

text \<open>
  \<open>drive ex k cs\<close> makes the calls \<open>cs\<close> one after the other, the first \<^verbatim>\<open>d.expect\<close> among
  them being the \<open>k\<close>-th of the run, and stops at the first one that raises. It returns
  the number of \<^verbatim>\<open>d.expect\<close> calls made so far, the events, and the exception if any.
\<close>

fun drive :: "(nat \<Rightarrow> pattern list \<Rightarrow> verdict) \<Rightarrow> nat \<Rightarrow> call list
    \<Rightarrow> nat \<times> event list \<times> error option" where
  "drive ex k [] = (k, [], None)"
| "drive ex k (sendline s # cs) =
     (case drive ex k cs of (k', evs, e) \<Rightarrow> (k', SentLine s # evs, e))"
| "drive ex k (sendcontrol c # cs) =
     (case drive ex k cs of (k', evs, e) \<Rightarrow> (k', SentControl c # evs, e))"
| "drive ex k (expect ps # cs) =
     (case raised (ex k ps) of
        Some e \<Rightarrow> (Suc k, [Expected ps (ex k ps)], Some e)
      | None \<Rightarrow>
          (case drive ex (Suc k) cs of (k', evs, e) \<Rightarrow> (k', Expected ps (ex k ps) # evs, e)))"

subsection \<open>The fixed texts of the protocol\<close>

definition already_mounted_msg :: "string \<Rightarrow> string" where
  "already_mounted_msg m =
     ''Drive already mounted at '' @ m @ ''; to attempt to forcibly remount, ''
     @ ''call drive.mount('' @ [DQ] @ m @ [DQ] @ '', force_remount=True).''"

definition shell_prompt :: "world \<Rightarrow> string" where
  "shell_prompt w = ''root@'' @ gethostname w @ ''-'' @ uuid4_hex w @ '': ''"

definition export_PS1 :: "string \<Rightarrow> string" where
  "export_PS1 p = ''export PS1='' @ [DQ] @ p @ [DQ]"

definition cleanup_cmd :: "string \<Rightarrow> string" where
  "cleanup_cmd mnt = ''umount -f '' @ mnt @ '' || umount '' @ mnt @ ''; pkill -9 -x drive''"

definition success :: string where
  "success = ''google.colab.drive MOUNTED''"

definition success_watcher :: "string \<Rightarrow> string" where
  "success_watcher m =
     ''( while `sleep 0.5`; do if ['' @ ''[ -d '' @ [DQ] @ m @ [DQ] @ '' && ''
     @ [DQ] @ ''$(ls -A '' @ m @ '')'' @ [DQ] @ '' != '' @ [DQ, DQ] @ '' ]'' @ '']; ''
     @ ''then echo '' @ [DQ] @ success @ [DQ] @ ''; break; fi; done ) &''"

definition launch_cmd :: "string \<Rightarrow> string \<Rightarrow> string \<Rightarrow> string" where
  "launch_cmd d family mnt =
     d @ ''/drive --features=opendir_timeout_ms:15000,virtual_folders:true ''
     @ ''--inet_family='' @ family @ '' ''
     @ ''--preferences=trusted_root_certs_file_path:''
     @ d @ ''/roots.pem,mount_point_path:'' @ mnt @ '' --console_auth''"

definition auth_url_re :: pattern where
  "auth_url_re = Regex (''(Go to this URL in a browser: https://.*)'' @ [CR, LF])"

definition auth_prompt :: "string \<Rightarrow> string" where
  "auth_prompt g = g @ [LF, LF] @ ''Enter your authorization code:'' @ [LF]"

subsection \<open>Lines 43 to 55 and 112: the environment of the child\<close>

record settings =
  home :: string
  root_dir :: string
  inet_family :: string
  dev :: string
  path :: string

definition settings_of :: "world \<Rightarrow> string \<Rightarrow> string \<Rightarrow> settings" where
  "settings_of w env_home cloudsdk_config =
     (let root = realpath w (join2 cloudsdk_config ''../..'');
          path0 = ''/usr/local/bin:/usr/local/sbin:/usr/bin:/usr/sbin:/bin:/sbin:.''
      in if length root > 1
         then (let fum = split_first ''mount'' env_home @ ''/mount/alloc/fusermount''
               in \<lparr>home = join2 root env_home, root_dir = root, inet_family = ''IPV6_ONLY'',
                   dev = fum @ ''/dev/fuse'', path = path0 @ '':'' @ fum @ ''/bin''\<rparr>)
         else \<lparr>home = env_home, root_dir = root, inet_family = ''IPV4_ONLY'',
               dev = ''/dev/fuse'', path = path0\<rparr>)"

definition config_dir_of :: "settings \<Rightarrow> string" where
  "config_dir_of st = join2 (join2 (home st) ''.config'') ''Google''"

definition drive_dir_of :: "settings \<Rightarrow> string" where
  "drive_dir_of st = join2 (root_dir st) ''opt/google/drive''"

subsection \<open>Lines 93 to 99: the checks on the mountpoint\<close>

text \<open>
  The queries made, in order (\<^verbatim>\<open>and\<close> does not evaluate its right operand when the left
  one is false), and the exception raised, if any.
\<close>

definition check_mountpoint :: "filesystem \<Rightarrow> string \<Rightarrow> event list \<times> error option" where
  "check_mountpoint f m =
     (if islink f m
      then ([IsLink m], Some (ValueError ''Mountpoint must not be a symlink''))
      else if isdir f m
      then (case listdir f m of
              None \<Rightarrow> ([IsLink m, IsDir m, ListDir m], Some OSError)
            | Some names \<Rightarrow>
                if names \<noteq> []
                then ([IsLink m, IsDir m, ListDir m],
                      Some (ValueError ''Mountpoint must not already contain files''))
                else ([IsLink m, IsDir m, ListDir m, IsDir m], None))
      else if exists f m
      then ([IsLink m, IsDir m, IsDir m, Exists m],
            Some (ValueError ''Mountpoint must either be a directory or not exist''))
      else ([IsLink m, IsDir m, IsDir m, Exists m], None))"

text \<open>The messages of the three \<^verbatim>\<open>ValueError\<close>s of lines 95, 97 and 99.\<close>

definition validation_messages :: "string list" where
  "validation_messages =
     [''Mountpoint must not be a symlink'',
      ''Mountpoint must not already contain files'',
      ''Mountpoint must either be a directory or not exist'']"

subsection \<open>Lines 120 to 134: the loop that waits for the outcome\<close>

text \<open>
  \<open>prompt\<close> is the local variable of that name: line 133 assigns the text shown to the
  user to it, and the next round builds its pattern list from the new value. \<open>k\<close> counts
  the \<^verbatim>\<open>d.expect\<close> calls and \<open>n\<close> the \<^verbatim>\<open>getpass\<close> calls of the run; \<open>evs\<close> are the events of
  the loop so far. The loop has no bound: a run that never leaves it is \<open>None\<close>.
\<close>

definition await_patterns :: "string \<Rightarrow> pattern list" where
  "await_patterns prompt = [Str success, Str prompt, auth_url_re]"

partial_function (option) await_outcome ::
  "(nat \<Rightarrow> pattern list \<Rightarrow> verdict) \<Rightarrow> (nat \<Rightarrow> string \<Rightarrow> string option) \<Rightarrow> string
     \<Rightarrow> nat \<Rightarrow> nat \<Rightarrow> event list \<Rightarrow> (nat \<times> event list \<times> error option) option" where
  "await_outcome ex gp prompt k n evs =
     (let ps = await_patterns prompt;
          evs1 = evs @ [Expected ps (ex k ps)]
      in case ex k ps of
           TimedOut \<Rightarrow> Some (Suc k, evs1, Some TIMEOUT)
         | EndOfFile \<Rightarrow> Some (Suc k, evs1, Some EOF)
         | Matched i g \<Rightarrow>
             if i = 0 then Some (Suc k, evs1, None)
             else if i = 1
             then Some (Suc k, evs1 @ [Terminated True], Some (ValueError ''mount failed''))
             else if i = 2
             then (let prompt' = auth_prompt g
                   in case gp n prompt' of
                        None \<Rightarrow> Some (Suc k, evs1 @ [GetPass prompt'], Some EOFError)
                      | Some code \<Rightarrow>
                          await_outcome ex gp prompt' (Suc k) (Suc n)
                            (evs1 @ [GetPass prompt', Sent (code @ [LF])]))
             else await_outcome ex gp prompt (Suc k) n evs1)"

subsection \<open>Lines 135 to 141: suspend, background, close\<close>

definition handoff :: "world \<Rightarrow> nat \<Rightarrow> string \<Rightarrow> event list \<times> (error + unit)" where
  "handoff w k mountpoint =
     (case drive (expect_outcome w) k
             [sendcontrol CHR ''z'', expect [Str ''Stopped''],
              sendline ''bg; disown; exit'', expect [EOF_pattern]] of
        (k', evs, Some e) \<Rightarrow> (evs, Inl e)
      | (k', evs, None) \<Rightarrow>
          if isalive w then (evs, Inl AssertionError)
          else if exitstatus w \<noteq> Some 0 then (evs, Inl AssertionError)
          else (evs @ [Print (''Mounted at '' @ mountpoint)], Inr ()))"

subsection \<open>Lines 81 to 141: the session\<close>

definition prelude :: "string \<Rightarrow> string \<Rightarrow> call list" where
  "prelude prompt mountpoint =
     [sendline (export_PS1 prompt), expect [Str prompt], expect [Str prompt],
      sendline (cleanup_cmd mountpoint), expect [Str ''pkill''], expect [Str prompt]]"

definition launch :: "string \<Rightarrow> string \<Rightarrow> string \<Rightarrow> call list" where
  "launch prompt mountpoint cmd =
     [sendline (success_watcher mountpoint), expect [Str prompt], sendline cmd]"

definition session :: "world \<Rightarrow> string \<Rightarrow> string \<Rightarrow> (event list \<times> (error + unit)) option" where
  "session w mountpoint cmd =
     (let prompt = shell_prompt w; ex = expect_outcome w
      in case drive ex 0 (prelude prompt mountpoint) of
           (k1, evs1, Some e) \<Rightarrow> Some (evs1, Inl e)
         | (k1, evs1, None) \<Rightarrow>
             (case check_mountpoint (fs_at w AfterCleanup) mountpoint of
                (qs, Some e) \<Rightarrow> Some (evs1 @ qs @ [Terminated True], Inl e)
              | (qs, None) \<Rightarrow>
                  (case drive ex k1 (launch prompt mountpoint cmd) of
                     (k2, evs2, Some e) \<Rightarrow> Some (evs1 @ qs @ evs2, Inl e)
                   | (k2, evs2, None) \<Rightarrow>
                       (case await_outcome ex (getpass w) prompt k2 0 [] of
                          None \<Rightarrow> None
                        | Some (k3, evs3, Some e) \<Rightarrow> Some (evs1 @ qs @ evs2 @ evs3, Inl e)
                        | Some (k3, evs3, None) \<Rightarrow>
                            (case handoff w k3 mountpoint of
                               (evs4, r) \<Rightarrow> Some (evs1 @ qs @ evs2 @ evs3 @ evs4, r))))))"

subsection \<open>Lines 32 to 141: mount\<close>

definition spawn_bash :: "settings \<Rightarrow> event" where
  "spawn_bash st =
     Spawn ''/bin/bash'' [''--noediting'']
       [(''HOME'', home st), (''FUSE_DEV_NAME'', dev st), (''PATH'', path st)]"

text \<open>Lines 67 to 141: spawn bash, set the log file when debugging, run the session.\<close>

definition enter :: "world \<Rightarrow> settings \<Rightarrow> string \<Rightarrow> event list \<Rightarrow> outcome option" where
  "enter w st mountpoint t =
     (if \<not> spawn_ok w
      then Some \<lparr>trace = t @ [spawn_bash st], result = Inl ExceptionPexpect\<rparr>
      else (let t' = t @ [spawn_bash st] @ (if mount_DEBUG w then [SetLogfileRead] else [])
            in case session w mountpoint
                      (launch_cmd (drive_dir_of st) (inet_family st) mountpoint) of
                 None \<Rightarrow> None
               | Some (evs, r) \<Rightarrow> Some \<lparr>trace = t' @ evs, result = r\<rparr>))"

definition mount :: "world \<Rightarrow> string \<Rightarrow> bool \<Rightarrow> outcome option" where
  "mount w mountpoint0 force_remount =
     (let mountpoint = expanduser w mountpoint0;
          my_drive = join2 mountpoint ''My Drive'';
          already_mounted = isdir (fs_at w AtEntry) my_drive
      in if \<not> force_remount \<and> already_mounted
         then Some \<lparr>trace = [IsDir my_drive, Print (already_mounted_msg mountpoint)],
                    result = Inr ()\<rparr>
         else
           (case environ w ''HOME'' of
              None \<Rightarrow> Some \<lparr>trace = [IsDir my_drive], result = Inl (KeyError ''HOME'')\<rparr>
            | Some env_home \<Rightarrow>
           (case environ w ''CLOUDSDK_CONFIG'' of
              None \<Rightarrow>
                Some \<lparr>trace = [IsDir my_drive], result = Inl (KeyError ''CLOUDSDK_CONFIG'')\<rparr>
            | Some cloudsdk_config \<Rightarrow>
                (let st = settings_of w env_home cloudsdk_config;
                     config_dir = config_dir_of st;
                     t1 = [IsDir my_drive, MakeDirs config_dir]
                 in if makedirs_ok w config_dir
                    then enter w st mountpoint t1
                    else if \<not> isdir (fs_at w AfterMakedirs) config_dir
                    then Some \<lparr>trace = t1 @ [IsDir config_dir],
                               result = Inl (ValueError
                                 (config_dir @ '' must be a directory if present''))\<rparr>
                    else enter w st mountpoint (t1 @ [IsDir config_dir])))))"

subsection \<open>Reading a trace\<close>

text \<open>The exchange with the session and with the user, without the file-system queries.\<close>

fun is_dialogue :: "event \<Rightarrow> bool" where
  "is_dialogue (SentLine s) = True"
| "is_dialogue (Sent s) = True"
| "is_dialogue (SentControl c) = True"
| "is_dialogue (Expected ps v) = True"
| "is_dialogue (Terminated b) = True"
| "is_dialogue (GetPass s) = True"
| "is_dialogue e = False"

definition dialogue :: "event list \<Rightarrow> event list" where
  "dialogue t = filter is_dialogue t"

fun is_getpass :: "event \<Rightarrow> bool" where
  "is_getpass (GetPass s) = True"
| "is_getpass e = False"

definition matched :: "verdict \<Rightarrow> bool" where
  "matched v = (raised v = None)"

subsection \<open>Which runs get how far\<close>

text \<open>
  \<open>spawns\<close>: the call is not answered by the already-mounted guard, both environment
  variables are set, the configuration directory is there after line 60, and
  \<^verbatim>\<open>pexpect.spawn\<close> returns.
\<close>

definition spawns :: "world \<Rightarrow> string \<Rightarrow> bool \<Rightarrow> bool" where
  "spawns w mountpoint0 force_remount =
     ((force_remount \<or> \<not> isdir (fs_at w AtEntry) (join2 (expanduser w mountpoint0) ''My Drive''))
      \<and> (case environ w ''HOME'' of None \<Rightarrow> False | Some env_home \<Rightarrow>
          (case environ w ''CLOUDSDK_CONFIG'' of None \<Rightarrow> False | Some cloudsdk_config \<Rightarrow>
             makedirs_ok w (config_dir_of (settings_of w env_home cloudsdk_config))
             \<or> isdir (fs_at w AfterMakedirs)
                  (config_dir_of (settings_of w env_home cloudsdk_config))))
      \<and> spawn_ok w)"

text \<open>\<open>cleans_up\<close>: the four waits of lines 82 to 91 all return.\<close>

definition cleans_up :: "world \<Rightarrow> bool" where
  "cleans_up w =
     (matched (expect_outcome w 0 [Str (shell_prompt w)])
      \<and> matched (expect_outcome w 1 [Str (shell_prompt w)])
      \<and> matched (expect_outcome w 2 [Str ''pkill''])
      \<and> matched (expect_outcome w 3 [Str (shell_prompt w)]))"

text \<open>
  \<open>launches\<close>: moreover the checks of lines 93 to 99 pass and the wait of line 111
  returns, so that line 113 sends the command that starts the drive binary.
\<close>

definition launches :: "world \<Rightarrow> string \<Rightarrow> bool" where
  "launches w mountpoint =
     (cleans_up w
      \<and> snd (check_mountpoint (fs_at w AfterCleanup) mountpoint) = None
      \<and> matched (expect_outcome w 4 [Str (shell_prompt w)]))"

text \<open>The drive command of a run, from the two environment variables.\<close>

definition drive_cmd :: "world \<Rightarrow> string \<Rightarrow> string" where
  "drive_cmd w mountpoint =
     (case environ w ''HOME'' of None \<Rightarrow> [] | Some env_home \<Rightarrow>
      (case environ w ''CLOUDSDK_CONFIG'' of None \<Rightarrow> [] | Some cloudsdk_config \<Rightarrow>
         launch_cmd (drive_dir_of (settings_of w env_home cloudsdk_config))
           (inet_family (settings_of w env_home cloudsdk_config)) mountpoint))"

text \<open>The events of lines 81 to 91, and of lines 110 to 113, when no wait raises.\<close>

definition prelude_events :: "world \<Rightarrow> string \<Rightarrow> event list" where
  "prelude_events w mountpoint =
     [SentLine (export_PS1 (shell_prompt w)),
      Expected [Str (shell_prompt w)] (expect_outcome w 0 [Str (shell_prompt w)]),
      Expected [Str (shell_prompt w)] (expect_outcome w 1 [Str (shell_prompt w)]),
      SentLine (cleanup_cmd mountpoint),
      Expected [Str ''pkill''] (expect_outcome w 2 [Str ''pkill'']),
      Expected [Str (shell_prompt w)] (expect_outcome w 3 [Str (shell_prompt w)])]"

definition launch_events :: "world \<Rightarrow> string \<Rightarrow> string \<Rightarrow> event list" where
  "launch_events w mountpoint cmd =
     [SentLine (success_watcher mountpoint),
      Expected [Str (shell_prompt w)] (expect_outcome w 4 [Str (shell_prompt w)]),
      SentLine cmd]"

text \<open>The exchange of a run up to and including line 113.\<close>

definition launch_dialogue :: "world \<Rightarrow> string \<Rightarrow> event list" where
  "launch_dialogue w mountpoint =
     prelude_events w mountpoint @ launch_events w mountpoint (drive_cmd w mountpoint)"

text \<open>All events of a run up to line 113, the queries of lines 94 to 98 included.\<close>

definition before_loop :: "world \<Rightarrow> string \<Rightarrow> string \<Rightarrow> event list" where
  "before_loop w mountpoint cmd =
     prelude_events w mountpoint
     @ fst (check_mountpoint (fs_at w AfterCleanup) mountpoint)
     @ launch_events w mountpoint cmd"

text \<open>The events of lines 37 to 80 of a run that spawns bash.\<close>

definition head_trace :: "world \<Rightarrow> string \<Rightarrow> event list" where
  "head_trace w mountpoint =
     (case environ w ''HOME'' of None \<Rightarrow> [] | Some env_home \<Rightarrow>
      (case environ w ''CLOUDSDK_CONFIG'' of None \<Rightarrow> [] | Some cloudsdk_config \<Rightarrow>
         (let st = settings_of w env_home cloudsdk_config
          in [IsDir (join2 mountpoint ''My Drive''), MakeDirs (config_dir_of st)]
             @ (if makedirs_ok w (config_dir_of st) then [] else [IsDir (config_dir_of st)])
             @ [spawn_bash st]
             @ (if mount_DEBUG w then [SetLogfileRead] else []))))"

text \<open>What the loop of lines 120 to 134 can add to a trace, and what it can raise.\<close>

fun loop_event :: "event \<Rightarrow> bool" where
  "loop_event (Expected ps v) = (length ps = 3)"
| "loop_event (Terminated b) = b"
| "loop_event (GetPass s) = True"
| "loop_event (Sent s) = True"
| "loop_event e = False"

definition loop_ok :: "event list \<Rightarrow> nat \<times> event list \<times> error option \<Rightarrow> bool" where
  "loop_ok evs y =
     ((list_all loop_event evs \<longrightarrow> list_all loop_event (fst (snd y)))
      \<and> snd (snd y) \<in> {None, Some TIMEOUT, Some EOF, Some EOFError,
                          Some (ValueError ''mount failed'')})"

text \<open>The configuration directory of a run, from the two environment variables.\<close>

definition config_dir :: "world \<Rightarrow> string" where
  "config_dir w =
     (case environ w ''HOME'' of None \<Rightarrow> [] | Some env_home \<Rightarrow>
      (case environ w ''CLOUDSDK_CONFIG'' of None \<Rightarrow> [] | Some cloudsdk_config \<Rightarrow>
         config_dir_of (settings_of w env_home cloudsdk_config)))"

text \<open>
  \<open>addressed w m e\<close>: the event \<open>e\<close> is about the path \<open>m\<close>. A query looks at \<open>m\<close>, at
  \<^verbatim>\<open>My Drive\<close> under \<open>m\<close>, or at the configuration directory; a line sent is one of the
  five commands of the protocol, made with \<open>m\<close>; a message printed names \<open>m\<close>. The other
  events carry no path.
\<close>

fun addressed :: "world \<Rightarrow> string \<Rightarrow> event \<Rightarrow> bool" where
  "addressed w m (IsDir p) = (p = join2 m ''My Drive'' \<or> p = m \<or> p = config_dir w)"
| "addressed w m (IsLink p) = (p = m)"
| "addressed w m (ListDir p) = (p = m)"
| "addressed w m (Exists p) = (p = m)"
| "addressed w m (MakeDirs p) = (p = config_dir w)"
| "addressed w m (SentLine c) =
     (c = export_PS1 (shell_prompt w) \<or> c = cleanup_cmd m \<or> c = success_watcher m
      \<or> c = drive_cmd w m \<or> c = ''bg; disown; exit'')"
| "addressed w m (Print s) = (s = already_mounted_msg m \<or> s = ''Mounted at '' @ m)"
| "addressed w m e = True"

fun is_spawn :: "event \<Rightarrow> bool" where
  "is_spawn (Spawn c as env) = True"
| "is_spawn e = False"

subsection \<open>A simulated session\<close>

text \<open>
  For concrete runs: the child writes one piece of text during each wait, or closes the
  terminal. A wait returns the first of its patterns found in that text; when none is,
  pexpect raises \<^verbatim>\<open>TIMEOUT\<close> (or \<^verbatim>\<open>EOF\<close> on a closed terminal). A \<^verbatim>\<open>str\<close> pattern is looked
  for as a substring, and the one regular expression of the module is recognised on
  a text that is exactly the line it describes.
\<close>

datatype emission = Output string | Closed

definition url_line :: "string \<Rightarrow> string option" where
  "url_line t =
     (if prefix ''Go to this URL in a browser: https://'' t \<and> suffix [CR, LF] t
         \<and> LF \<notin> set (butlast t)
      then Some (take (length t - 2) t) else None)"

fun matches :: "pattern \<Rightarrow> emission \<Rightarrow> string option" where
  "matches (Str s) (Output t) = (if sublist s t then Some [] else None)"
| "matches (Regex r) (Output t) = (if Regex r = auth_url_re then url_line t else None)"
| "matches EOF_pattern Closed = Some []"
| "matches p em = None"

fun first_match :: "pattern list \<Rightarrow> emission \<Rightarrow> nat \<Rightarrow> verdict" where
  "first_match [] em i = (case em of Closed \<Rightarrow> EndOfFile | Output t \<Rightarrow> TimedOut)"
| "first_match (p # ps) em i =
     (case matches p em of Some g \<Rightarrow> Matched i g | None \<Rightarrow> first_match ps em (Suc i))"

definition simulated :: "emission list \<Rightarrow> nat \<Rightarrow> pattern list \<Rightarrow> verdict" where
  "simulated ems k ps = (if k < length ems then first_match ps (ems ! k) 0 else TimedOut)"

definition colab_prompt :: string where
  "colab_prompt = ''root@colab-1f: ''"

text \<open>The five pieces of text up to the launch of the drive binary.\<close>

definition until_launch :: "emission list" where
  "until_launch =
     [Output (''export PS1='' @ [DQ] @ colab_prompt @ [DQ, CR, LF]),
      Output colab_prompt,
      Output (''umount: /content/drive: not mounted'' @ [CR, LF] @ ''pkill -9 -x drive''),
      Output colab_prompt,
      Output colab_prompt]"

definition mounted_at_once :: "emission list" where
  "mounted_at_once =
     until_launch
     @ [Output (success @ [CR, LF]), Output (''[2]+  Stopped'' @ [CR, LF]), Closed]"

definition auth_line :: string where
  "auth_line = ''Go to this URL in a browser: https://accounts.example/o/oauth2?id=7''"

definition mounted_after_auth :: "emission list" where
  "mounted_after_auth =
     until_launch
     @ [Output (auth_line @ [CR, LF]), Output (success @ [CR, LF]),
        Output (''[2]+  Stopped'' @ [CR, LF]), Closed]"

text \<open>The user enters a wrong code: the drive binary exits and bash prompts again.\<close>

definition crash_after_auth :: "emission list" where
  "crash_after_auth =
     until_launch
     @ [Output (auth_line @ [CR, LF]),
        Output (''Authorization failed'' @ [CR, LF] @ colab_prompt)]"

definition plain_fs :: filesystem where
  "plain_fs =
     \<lparr>islink = (\<lambda>p. False),
      isdir = (\<lambda>p. p = ''/content'' \<or> p = ''/root''),
      exists = (\<lambda>p. p = ''/content'' \<or> p = ''/root''),
      listdir = (\<lambda>p. if p = ''/content'' then Some [''sample_data'']
                       else if p = ''/root'' then Some [] else None)\<rparr>"

definition colab :: world where
  "colab =
     \<lparr>expanduser = (\<lambda>p. if prefix ''~/'' p then ''/root'' @ tl p else p),
      environ = [''HOME'' \<mapsto> ''/root'', ''CLOUDSDK_CONFIG'' \<mapsto> ''/content/.config''],
      realpath = (\<lambda>p. if p = ''/content/.config/../..'' then ''/'' else p),
      fs_at = (\<lambda>t. plain_fs),
      makedirs_ok = (\<lambda>p. True),
      gethostname = ''colab'',
      uuid4_hex = ''1f'',
      spawn_ok = True,
      mount_DEBUG = False,
      expect_outcome = simulated mounted_at_once,
      getpass = (\<lambda>n msg. Some ''4/Xy''),
      isalive = False,
      exitstatus = Some 0\<rparr>"

text \<open>Drive is mounted at \<^verbatim>\<open>/content/drive\<close>.\<close>

definition colab_mounted :: world where
  "colab_mounted =
     colab\<lparr>fs_at := (\<lambda>t. plain_fs\<lparr>isdir := (\<lambda>p. p = ''/content'' \<or> p = ''/root''
        \<or> p = ''/content/drive'' \<or> p = ''/content/drive/My Drive'')\<rparr>)\<rparr>"

text \<open>The user is asked for a code once, then the drive is mounted.\<close>

definition colab_auth :: world where
  "colab_auth = colab\<lparr>expect_outcome := simulated mounted_after_auth\<rparr>"

text \<open>\<^verbatim>\<open>/content/drive\<close> is a symbolic link.\<close>

definition colab_symlink :: world where
  "colab_symlink =
     colab\<lparr>fs_at := (\<lambda>t. plain_fs\<lparr>islink := (\<lambda>p. p = ''/content/drive''),
                                      exists := (\<lambda>p. p = ''/content'' \<or> p = ''/root''
                                         \<or> p = ''/content/drive'')\<rparr>)\<rparr>"

text \<open>Everything goes well, but bash exits with status 1.\<close>

definition colab_exit1 :: world where
  "colab_exit1 = colab\<lparr>exitstatus := Some 1\<rparr>"

text \<open>A code is entered, the drive binary gives up, and bash prompts again.\<close>

definition colab_crash :: world where
  "colab_crash =
     colab\<lparr>expect_outcome := simulated crash_after_auth, getpass := (\<lambda>n msg. Some ''oops'')\<rparr>"

text \<open>Something that is not a directory sits at \<^verbatim>\<open>/root/.config/Google\<close>.\<close>

definition colab_config_file :: world where
  "colab_config_file = colab\<lparr>makedirs_ok := (\<lambda>p. False)\<rparr>"

declare await_outcome.simps [code]

section \<open>Properties\<close>

subsection \<open>How a run unfolds\<close>

lemma await_outcome_sound:
  assumes "await_outcome ex gp p k n evs = Some y"
  shows "loop_ok evs y"
proof (rule await_outcome.raw_induct
    [where P = "\<lambda>ex gp p k n evs y. loop_ok evs y", OF _ assms], goal_cases)
  case (1 loop ex gp p k n evs y)
  then show ?case
    by (auto simp: loop_ok_def Let_def await_patterns_def
          split: verdict.splits if_splits option.splits)
qed

lemma await_errors:
  assumes "await_outcome ex gp p k n [] = Some (k', evs, Some e)"
  shows "e = TIMEOUT \<or> e = EOF \<or> e = EOFError \<or> e = ValueError ''mount failed''"
  using await_outcome_sound [OF assms] by (auto simp: loop_ok_def)

lemma await_events:
  assumes "await_outcome ex gp p k n [] = Some (k', evs, e)"
  shows "list_all loop_event evs"
  using await_outcome_sound [OF assms] by (simp add: loop_ok_def)

lemma await_at_once:
  assumes "ex k (await_patterns p) = Matched 0 g"
  shows "await_outcome ex gp p k n evs
    = Some (Suc k, evs @ [Expected (await_patterns p) (Matched 0 g)], None)"
  by (subst await_outcome.simps) (simp add: assms Let_def)

lemma await_auth:
  assumes "ex k (await_patterns p) = Matched 2 url"
    and "gp n (auth_prompt url) = Some code"
  shows "await_outcome ex gp p k n evs
    = await_outcome ex gp (auth_prompt url) (Suc k) (Suc n)
        (evs @ [Expected (await_patterns p) (Matched 2 url),
                GetPass (auth_prompt url), Sent (code @ [LF])])"
  by (subst await_outcome.simps) (simp add: assms Let_def)

lemma drive_errors:
  "drive ex k cs = (k', evs, Some e) \<Longrightarrow> e = TIMEOUT \<or> e = EOF"
proof (induction ex k cs arbitrary: k' evs rule: drive.induct)
  case (4 ex k ps cs)
  then show ?case
    by (auto simp: raised_def split: option.splits prod.splits verdict.splits)
qed (auto split: prod.splits)

lemma drive_expected:
  "drive ex k cs = (k', evs, e) \<Longrightarrow> Expected ps v \<in> set evs \<Longrightarrow> expect ps \<in> set cs"
proof (induction ex k cs arbitrary: k' evs e rule: drive.induct)
  case (4 ex k ps cs)
  then show ?case
    by (auto split: option.splits prod.splits)
qed (auto split: prod.splits)

lemma drive_sent:
  "drive ex k cs = (k', evs, e) \<Longrightarrow> x \<in> set evs \<Longrightarrow>
     (\<exists>c. x = SentLine c \<and> sendline c \<in> set cs) \<or> (\<exists>c. x = SentControl c)
     \<or> (\<exists>ps v. x = Expected ps v)"
proof (induction ex k cs arbitrary: k' evs e rule: drive.induct)
  case (4 ex k ps cs)
  then show ?case
    by (auto split: option.splits prod.splits)
qed (auto split: prod.splits)

lemma drive_prelude:
  assumes "cleans_up w"
  shows "drive (expect_outcome w) 0 (prelude (shell_prompt w) m) = (4, prelude_events w m, None)"
  using assms
  by (simp add: cleans_up_def matched_def prelude_def prelude_events_def eval_nat_numeral)

lemma drive_launch:
  assumes "matched (expect_outcome w 4 [Str (shell_prompt w)])"
  shows "drive (expect_outcome w) 4 (launch (shell_prompt w) m cmd)
    = (5, launch_events w m cmd, None)"
  using assms
  by (simp add: matched_def launch_def launch_events_def eval_nat_numeral)

lemma drive_prelude_conv:
  assumes "drive (expect_outcome w) 0 (prelude (shell_prompt w) m) = (k, evs, None)"
  shows "cleans_up w \<and> k = 4 \<and> evs = prelude_events w m"
  using assms
  by (simp add: prelude_def cleans_up_def matched_def prelude_events_def eval_nat_numeral
        split: option.splits)

lemma drive_launch_conv:
  assumes "drive (expect_outcome w) 4 (launch (shell_prompt w) m cmd) = (k, evs, None)"
  shows "matched (expect_outcome w 4 [Str (shell_prompt w)]) \<and> k = 5
     \<and> evs = launch_events w m cmd"
  using assms
  by (simp add: launch_def matched_def launch_events_def eval_nat_numeral
        split: option.splits)

lemma handoff_clean:
  assumes "matched (expect_outcome w k [Str ''Stopped''])"
    and "matched (expect_outcome w (Suc k) [EOF_pattern])"
    and "\<not> isalive w" and "exitstatus w = Some 0"
  shows "handoff w k m =
    ([SentControl CHR ''z'',
      Expected [Str ''Stopped''] (expect_outcome w k [Str ''Stopped'']),
      SentLine ''bg; disown; exit'',
      Expected [EOF_pattern] (expect_outcome w (Suc k) [EOF_pattern]),
      Print (''Mounted at '' @ m)], Inr ())"
  using assms by (simp add: handoff_def matched_def)

lemma handoff_shape:
  "\<exists>rest r. handoff w k m = (SentControl CHR ''z'' # rest, r) \<and> filter is_getpass rest = []"
  by (auto simp: handoff_def split: option.splits)

lemma handoff_errors:
  "handoff w k m = (evs, Inl e) \<Longrightarrow> e = TIMEOUT \<or> e = EOF \<or> e = AssertionError"
  by (auto simp: handoff_def raised_def split: option.splits if_splits verdict.splits)

lemma handoff_EOF:
  assumes "handoff w k m = (evs, r)"
    and "Expected [EOF_pattern] (Matched i g) \<in> set evs"
    and "exitstatus w \<noteq> Some 0"
  shows "r = Inl AssertionError"
  using assms
  by (auto simp: handoff_def raised_def split: option.splits if_splits verdict.splits)

lemma dialogue_head_trace [simp]: "dialogue (head_trace w m) = []"
  by (simp add: head_trace_def dialogue_def spawn_bash_def Let_def split: option.splits)

lemma dialogue_check_mountpoint [simp]: "dialogue (fst (check_mountpoint f m)) = []"
  by (simp add: check_mountpoint_def dialogue_def split: option.splits)

lemma dialogue_append [simp]: "dialogue (xs @ ys) = dialogue xs @ dialogue ys"
  by (simp add: dialogue_def)

lemma dialogue_before_loop [simp]:
  "dialogue (before_loop w m (drive_cmd w m)) = launch_dialogue w m"
  by (simp add: before_loop_def launch_dialogue_def)
    (simp add: dialogue_def prelude_events_def launch_events_def)


lemma getpass_head_trace [simp]: "filter is_getpass (head_trace w m) = []"
  by (simp add: head_trace_def spawn_bash_def Let_def split: option.splits)

lemma getpass_before_loop [simp]: "filter is_getpass (before_loop w m cmd) = []"
  by (simp add: before_loop_def prelude_events_def launch_events_def check_mountpoint_def
        split: option.splits)

lemma head_trace_no_expected: "Expected ps v \<notin> set (head_trace w m)"
  by (simp add: head_trace_def spawn_bash_def Let_def split: option.splits)

lemma check_mountpoint_no_expected: "Expected ps v \<notin> set (fst (check_mountpoint f m))"
  by (simp add: check_mountpoint_def split: option.splits)


lemma config_msg_not_validation:
  "cfg @ '' must be a directory if present'' \<notin> set validation_messages"
proof
  assume a: "cfg @ '' must be a directory if present'' \<in> set validation_messages"
  have "take 2 (rev (cfg @ '' must be a directory if present'')) = ''tn''" by simp
  moreover have "\<forall>m \<in> set validation_messages. take 2 (rev m) \<noteq> ''tn''"
    by (simp add: validation_messages_def)
  ultimately show False using a by blast
qed



lemma mount_spawns:
  assumes "spawns w mp force_remount"
  shows "mount w mp force_remount =
     (case session w (expanduser w mp) (drive_cmd w (expanduser w mp)) of
        None \<Rightarrow> None
      | Some (evs, r) \<Rightarrow>
          Some \<lparr>trace = head_trace w (expanduser w mp) @ evs, result = r\<rparr>)"
  using assms
  by (auto simp: spawns_def mount_def enter_def head_trace_def drive_cmd_def Let_def
        split: option.splits)

lemma session_launches:
  assumes "launches w m"
  shows "session w m cmd =
     (case await_outcome (expect_outcome w) (getpass w) (shell_prompt w) 5 0 [] of
        None \<Rightarrow> None
      | Some (k3, evs3, Some e) \<Rightarrow> Some (before_loop w m cmd @ evs3, Inl e)
      | Some (k3, evs3, None) \<Rightarrow>
          (case handoff w k3 m of (evs4, r) \<Rightarrow> Some (before_loop w m cmd @ evs3 @ evs4, r)))"
proof -
  from assms have c: "cleans_up w"
    and v: "snd (check_mountpoint (fs_at w AfterCleanup) m) = None"
    and l: "matched (expect_outcome w 4 [Str (shell_prompt w)])"
    by (simp_all add: launches_def)
  obtain qs where q: "check_mountpoint (fs_at w AfterCleanup) m = (qs, None)"
    using v by (cases "check_mountpoint (fs_at w AfterCleanup) m") simp
  show ?thesis
    unfolding session_def Let_def
    by (simp add: drive_prelude [OF c] drive_launch [OF l] q before_loop_def
          split: option.splits prod.splits)
qed


lemma session_cases [consumes 1, case_names prelude_raised rejected launch_raised
    loop_raised handed_off]:
  assumes "session w m cmd = Some (evs, r)"
  obtains
    k e where "drive (expect_outcome w) 0 (prelude (shell_prompt w) m) = (k, evs, Some e)"
      and "r = Inl e"
  | qs e where "cleans_up w"
      and "check_mountpoint (fs_at w AfterCleanup) m = (qs, Some e)"
      and "evs = prelude_events w m @ qs @ [Terminated True]" and "r = Inl e"
  | qs k evs2 e where "cleans_up w"
      and "check_mountpoint (fs_at w AfterCleanup) m = (qs, None)"
      and "drive (expect_outcome w) 4 (launch (shell_prompt w) m cmd) = (k, evs2, Some e)"
      and "evs = prelude_events w m @ qs @ evs2" and "r = Inl e"
  | k evs3 e where "launches w m"
      and "await_outcome (expect_outcome w) (getpass w) (shell_prompt w) 5 0 []
            = Some (k, evs3, Some e)"
      and "evs = before_loop w m cmd @ evs3" and "r = Inl e"
  | k evs3 evs4 where "launches w m"
      and "await_outcome (expect_outcome w) (getpass w) (shell_prompt w) 5 0 []
            = Some (k, evs3, None)"
      and "handoff w k m = (evs4, r)"
      and "evs = before_loop w m cmd @ evs3 @ evs4"
proof -
  obtain k1 evs1 e1 where d1:
    "drive (expect_outcome w) 0 (prelude (shell_prompt w) m) = (k1, evs1, e1)"
    by (cases "drive (expect_outcome w) 0 (prelude (shell_prompt w) m)") auto
  show thesis
  proof (cases e1)
    case (Some e)
    with assms d1 have "evs = evs1" "r = Inl e" by (simp_all add: session_def Let_def)
    with d1 Some show thesis using that(1) by blast
  next
    case None
    with d1 have c: "cleans_up w" and k1: "k1 = 4" and evs1: "evs1 = prelude_events w m"
      using drive_prelude_conv by blast+
    obtain qs e2 where q: "check_mountpoint (fs_at w AfterCleanup) m = (qs, e2)"
      by (cases "check_mountpoint (fs_at w AfterCleanup) m") auto
    show thesis
    proof (cases e2)
      case (Some e)
      with assms d1 None q evs1 have "evs = prelude_events w m @ qs @ [Terminated True]" "r = Inl e"
        by (simp_all add: session_def Let_def)
      with c q Some show thesis using that(2) by blast
    next
      case qn: None
      obtain k2 evs2 e3 where d2:
        "drive (expect_outcome w) 4 (launch (shell_prompt w) m cmd) = (k2, evs2, e3)"
        by (cases "drive (expect_outcome w) 4 (launch (shell_prompt w) m cmd)") auto
      show thesis
      proof (cases e3)
        case (Some e)
        with assms d1 None q qn d2 k1 evs1
        have "evs = prelude_events w m @ qs @ evs2" "r = Inl e"
          by (simp_all add: session_def Let_def)
        with c q qn d2 Some show thesis using that(3) by blast
      next
        case ln: None
        with d2 have l4: "matched (expect_outcome w 4 [Str (shell_prompt w)])"
          using drive_launch_conv by blast
        have la: "launches w m"
          using c q qn l4 by (simp add: launches_def)
        from assms show thesis
          unfolding session_launches [OF la]
          using that(4) [OF la] that(5) [OF la]
          by (auto split: option.splits prod.splits)
      qed
    qed
  qed
qed

lemma mount_cases [consumes 1, case_names guard no_home no_cloudsdk bad_config no_spawn spawned]:
  assumes "mount w mp force_remount = Some r"
  obtains
    "\<not> force_remount"
      and "isdir (fs_at w AtEntry) (join2 (expanduser w mp) ''My Drive'')"
      and "r = \<lparr>trace = [IsDir (join2 (expanduser w mp) ''My Drive''),
                          Print (already_mounted_msg (expanduser w mp))],
                 result = Inr ()\<rparr>"
  | "environ w ''HOME'' = None"
      and "trace r = [IsDir (join2 (expanduser w mp) ''My Drive'')]"
      and "result r = Inl (KeyError ''HOME'')"
  | "environ w ''CLOUDSDK_CONFIG'' = None"
      and "trace r = [IsDir (join2 (expanduser w mp) ''My Drive'')]"
      and "result r = Inl (KeyError ''CLOUDSDK_CONFIG'')"
  | h c where "environ w ''HOME'' = Some h" and "environ w ''CLOUDSDK_CONFIG'' = Some c"
      and "\<not> makedirs_ok w (config_dir_of (settings_of w h c))"
      and "\<not> isdir (fs_at w AfterMakedirs) (config_dir_of (settings_of w h c))"
      and "trace r = [IsDir (join2 (expanduser w mp) ''My Drive''),
                      MakeDirs (config_dir_of (settings_of w h c)),
                      IsDir (config_dir_of (settings_of w h c))]"
      and "result r = Inl (ValueError
             (config_dir_of (settings_of w h c) @ '' must be a directory if present''))"
  | "\<not> spawn_ok w"
      and "trace r @ (if mount_DEBUG w then [SetLogfileRead] else [])
            = head_trace w (expanduser w mp)"
      and "result r = Inl ExceptionPexpect"
  | evs where "spawns w mp force_remount"
      and "session w (expanduser w mp) (drive_cmd w (expanduser w mp))
            = Some (evs, result r)"
      and "trace r = head_trace w (expanduser w mp) @ evs"
proof (cases "spawns w mp force_remount")
  case True
  with assms show thesis
    using that(6) [OF True]
    by (auto simp: mount_spawns split: option.splits prod.splits)
next
  case False
  with assms show thesis
    using that(1-5)
    by (auto simp: spawns_def mount_def enter_def head_trace_def Let_def
          split: option.splits if_splits)
qed

lemma addressed_head_trace: "list_all (addressed w m) (head_trace w m)"
  by (simp add: head_trace_def config_dir_def spawn_bash_def Let_def split: option.splits)

lemma addressed_check: "list_all (addressed w m) (fst (check_mountpoint f m))"
  by (simp add: check_mountpoint_def split: option.splits)

lemma addressed_prelude: "list_all (addressed w m) (prelude_events w m)"
  by (simp add: prelude_events_def)

lemma addressed_launch: "list_all (addressed w m) (launch_events w m (drive_cmd w m))"
  by (simp add: launch_events_def)

lemma addressed_before_loop: "list_all (addressed w m) (before_loop w m (drive_cmd w m))"
  by (simp add: before_loop_def addressed_check addressed_prelude addressed_launch)

lemma addressed_loop_event: "loop_event e \<Longrightarrow> addressed w m e"
  by (cases e) simp_all

lemma addressed_loop:
  assumes "await_outcome ex gp p k n [] = Some (k', evs, e)"
  shows "list_all (addressed w m) evs"
  using await_events [OF assms] addressed_loop_event by (auto simp: list_all_iff)

lemma addressed_drive:
  assumes "drive ex k cs = (k', evs, e)"
    and "\<forall>c. sendline c \<in> set cs \<longrightarrow> addressed w m (SentLine c)"
  shows "list_all (addressed w m) evs"
  unfolding list_all_iff
proof
  fix x assume "x \<in> set evs"
  from drive_sent [OF assms(1) this] assms(2) show "addressed w m x" by auto
qed

lemma addressed_handoff:
  assumes "handoff w k m = (evs, r)"
  shows "list_all (addressed w m) evs"
  using assms
  by (auto simp: handoff_def raised_def split: option.splits if_splits verdict.splits)

lemma handoff_debug [simp]: "handoff (w\<lparr>mount_DEBUG := b\<rparr>) k m = handoff w k m"
  by (simp add: handoff_def cong: prod.case_cong option.case_cong if_cong)

lemma session_debug [simp]: "session (w\<lparr>mount_DEBUG := b\<rparr>) m cmd = session w m cmd"
  by (simp add: session_def shell_prompt_def Let_def cong: prod.case_cong option.case_cong)

lemma settings_debug [simp]: "settings_of (w\<lparr>mount_DEBUG := b\<rparr>) h c = settings_of w h c"
  by (simp add: settings_of_def)

subsection \<open>The already-mounted guard\<close>

text \<open>
  C6. When \<^verbatim>\<open>My Drive\<close> is a directory under the (expanded) mountpoint and
  \<^verbatim>\<open>force_remount\<close> is false, \<^verbatim>\<open>mount\<close> does nothing but look at that directory and print
  the already-mounted message: no directory is made, no process is spawned, nothing is
  sent, and the call returns normally.
\<close>

theorem already_mounted_noop:
  assumes "\<not> force_remount"
    and "isdir (fs_at w AtEntry) (join2 (expanduser w mp) ''My Drive'')"
  shows "mount w mp force_remount =
    Some \<lparr>trace = [IsDir (join2 (expanduser w mp) ''My Drive''),
                   Print (already_mounted_msg (expanduser w mp))],
          result = Inr ()\<rparr>"
  using assms by (simp add: mount_def Let_def)

theorem already_mounted_noop_witness:
  "isdir (fs_at colab_mounted AtEntry)
     (join2 (expanduser colab_mounted ''/content/drive'') ''My Drive'')
   \<and> mount colab_mounted ''/content/drive'' False =
     Some \<lparr>trace = [IsDir ''/content/drive/My Drive'',
                    Print (already_mounted_msg ''/content/drive'')],
           result = Inr ()\<rparr>"
proof -
  have h: "isdir (fs_at colab_mounted AtEntry)
     (join2 (expanduser colab_mounted ''/content/drive'') ''My Drive'')"
    by (simp add: colab_mounted_def colab_def plain_fs_def join2_def)
  have x: "expanduser colab_mounted ''/content/drive'' = ''/content/drive''"
    by (simp add: colab_mounted_def colab_def)
  show ?thesis
    using h already_mounted_noop [of False colab_mounted "''/content/drive''", OF _ h]
    by (simp add: x join2_def)
qed

subsection \<open>The configuration directory\<close>

text \<open>
  C10. In a run that is not answered by the already-mounted guard and has both
  environment variables, \<^verbatim>\<open>os.makedirs\<close> is called on \<^verbatim>\<open>.config/Google\<close> under the home
  directory before any process is spawned; and when that call raises \<^verbatim>\<open>OSError\<close> and the
  path is not a directory, \<^verbatim>\<open>mount\<close> raises \<^verbatim>\<open>ValueError\<close> with the message
  \<^verbatim>\<open>... must be a directory if present\<close>, having spawned nothing and sent nothing.
\<close>

theorem config_dir_made_before_spawn:
  assumes "force_remount \<or> \<not> isdir (fs_at w AtEntry) (join2 (expanduser w mp) ''My Drive'')"
    and "environ w ''HOME'' = Some h"
    and "environ w ''CLOUDSDK_CONFIG'' = Some c"
  shows "(\<forall>r. mount w mp force_remount = Some r \<longrightarrow>
            MakeDirs (config_dir_of (settings_of w h c))
              \<in> set (takeWhile (\<lambda>e. \<not> is_spawn e) (trace r)))
    \<and> (\<not> makedirs_ok w (config_dir_of (settings_of w h c))
        \<and> \<not> isdir (fs_at w AfterMakedirs) (config_dir_of (settings_of w h c)) \<longrightarrow>
        mount w mp force_remount =
          Some \<lparr>trace = [IsDir (join2 (expanduser w mp) ''My Drive''),
                         MakeDirs (config_dir_of (settings_of w h c)),
                         IsDir (config_dir_of (settings_of w h c))],
                result = Inl (ValueError (config_dir_of (settings_of w h c)
                                           @ '' must be a directory if present''))\<rparr>)"
  using assms
  by (auto simp: mount_def enter_def Let_def split: option.splits prod.splits)

theorem config_dir_made_before_spawn_witness:
  "\<not> isdir (fs_at colab_config_file AtEntry)
        (join2 (expanduser colab_config_file ''/content/drive'') ''My Drive'')
   \<and> environ colab_config_file ''HOME'' = Some ''/root''
   \<and> environ colab_config_file ''CLOUDSDK_CONFIG'' = Some ''/content/.config''
   \<and> config_dir_of (settings_of colab_config_file ''/root'' ''/content/.config'')
       = ''/root/.config/Google''
   \<and> \<not> makedirs_ok colab_config_file ''/root/.config/Google''
   \<and> \<not> isdir (fs_at colab_config_file AfterMakedirs) ''/root/.config/Google''
   \<and> mount colab_config_file ''/content/drive'' False =
       Some \<lparr>trace = [IsDir ''/content/drive/My Drive'', MakeDirs ''/root/.config/Google'',
                      IsDir ''/root/.config/Google''],
             result = Inl (ValueError ''/root/.config/Google must be a directory if present'')\<rparr>"
proof -
  have x: "expanduser colab_config_file ''/content/drive'' = ''/content/drive''" by code_simp
  have j: "join2 ''/content/drive'' ''My Drive'' = ''/content/drive/My Drive''" by code_simp
  have a: "\<not> isdir (fs_at colab_config_file AtEntry)
        (join2 (expanduser colab_config_file ''/content/drive'') ''My Drive'')" by code_simp
  have b: "environ colab_config_file ''HOME'' = Some ''/root''" by code_simp
  have c: "environ colab_config_file ''CLOUDSDK_CONFIG'' = Some ''/content/.config''"
    by code_simp
  have d: "config_dir_of (settings_of colab_config_file ''/root'' ''/content/.config'')
       = ''/root/.config/Google''" by code_simp
  have e: "\<not> makedirs_ok colab_config_file ''/root/.config/Google''" by code_simp
  have f: "\<not> isdir (fs_at colab_config_file AfterMakedirs) ''/root/.config/Google''"
    by code_simp
  from config_dir_made_before_spawn [where force_remount = False and w = colab_config_file
      and mp = "''/content/drive''", OF _ b c] a
  have "\<not> makedirs_ok colab_config_file ''/root/.config/Google''
        \<and> \<not> isdir (fs_at colab_config_file AfterMakedirs) ''/root/.config/Google'' \<longrightarrow>
        mount colab_config_file ''/content/drive'' False =
          Some \<lparr>trace = [IsDir ''/content/drive/My Drive'', MakeDirs ''/root/.config/Google'',
                      IsDir ''/root/.config/Google''],
             result = Inl (ValueError ''/root/.config/Google must be a directory if present'')\<rparr>"
    by (simp add: d x j)
  with a b c d e f show ?thesis by simp
qed

subsection \<open>The expanded mountpoint\<close>

text \<open>
  C9. Everything a run does is about \<^verbatim>\<open>os.path.expanduser(mountpoint)\<close>: the first query
  looks at \<^verbatim>\<open>My Drive\<close> under it, the checks of lines 94 to 98 look at it, the unmount
  command, the success watcher and the drive command are made with it, and both
  messages name it. In the run that follows the theorem \<^verbatim>\<open>~/drive\<close> is given and
  \<^verbatim>\<open>/root/drive\<close> is mounted.
\<close>

theorem mount_works_on_expanded_path:
  assumes "mount w mp force_remount = Some r"
  shows "list_all (addressed w (expanduser w mp)) (trace r)"
  using assms
proof (cases rule: mount_cases)
  case guard
  then show ?thesis by simp
next
  case no_home
  then show ?thesis by simp
next
  case no_cloudsdk
  then show ?thesis by simp
next
  case (bad_config h c)
  then show ?thesis by (simp add: config_dir_def)
next
  case no_spawn
  have "set (trace r) \<subseteq> set (head_trace w (expanduser w mp))"
    using no_spawn(2) [symmetric] by simp
  with addressed_head_trace [of w "expanduser w mp"] show ?thesis
    by (auto simp: list_all_iff)
next
  case (spawned evs)
  have "list_all (addressed w (expanduser w mp)) evs"
    using spawned(2)
  proof (cases rule: session_cases)
    case (prelude_raised k e)
    then show ?thesis
      by (intro addressed_drive [OF prelude_raised(1)]) (auto simp: prelude_def)
  next
    case (rejected qs e)
    with addressed_check [of w "expanduser w mp" "fs_at w AfterCleanup"]
    show ?thesis by (simp add: addressed_prelude)
  next
    case (launch_raised qs k evs2 e)
    have "list_all (addressed w (expanduser w mp)) evs2"
      by (intro addressed_drive [OF launch_raised(3)]) (auto simp: launch_def)
    with launch_raised addressed_check [of w "expanduser w mp" "fs_at w AfterCleanup"]
    show ?thesis by (simp add: addressed_prelude)
  next
    case (loop_raised k evs3 e)
    with addressed_loop [OF loop_raised(2)] show ?thesis
      by (simp add: addressed_before_loop)
  next
    case (handed_off k evs3 evs4)
    with addressed_loop [OF handed_off(2)] addressed_handoff [OF handed_off(3)] show ?thesis
      by (simp add: addressed_before_loop)
  qed
  with spawned(3) show ?thesis by (simp add: addressed_head_trace)
qed

theorem mount_works_on_expanded_path_witness:
  "expanduser colab ''~/drive'' = ''/root/drive''
   \<and> mount colab ''~/drive'' False \<noteq> None
   \<and> list_all (addressed colab ''/root/drive'') (trace (the (mount colab ''~/drive'' False)))
   \<and> last (trace (the (mount colab ''~/drive'' False))) = Print ''Mounted at /root/drive''"
proof -
  have x: "expanduser colab ''~/drive'' = ''/root/drive''" by code_simp
  have n: "mount colab ''~/drive'' False \<noteq> None" by code_simp
  then obtain r where r: "mount colab ''~/drive'' False = Some r" by auto
  have l: "last (trace (the (mount colab ''~/drive'' False))) = Print ''Mounted at /root/drive''"
    by code_simp
  from mount_works_on_expanded_path [OF r] x n l r show ?thesis by simp
qed

subsection \<open>The debug flag\<close>

text \<open>
  C8. Two runs that differ only in \<^verbatim>\<open>mount._DEBUG\<close> return or diverge together, with the same
  result or exception, and their traces are the same once the assignment
  \<^verbatim>\<open>d.logfile_read = sys.stdout\<close> of line 80 is left out: the same queries, the same
  lines sent, the same waits with the same answers, the same messages. (From that
  assignment on pexpect copies what it reads to \<^verbatim>\<open>sys.stdout\<close>; the copying is pexpect's,
  not an action of \<^verbatim>\<open>mount\<close>, and the answers of the session do not depend on it.)
\<close>

theorem debug_flag_only_sets_logfile:
  "map_option (\<lambda>r. (removeAll SetLogfileRead (trace r), result r))
     (mount (w\<lparr>mount_DEBUG := b\<rparr>) mp force_remount)
   = map_option (\<lambda>r. (removeAll SetLogfileRead (trace r), result r))
     (mount (w\<lparr>mount_DEBUG := b'\<rparr>) mp force_remount)"
  by (simp add: mount_def enter_def Let_def spawn_bash_def
        split: option.splits prod.splits)

theorem debug_flag_only_sets_logfile_witness:
  "map_option (\<lambda>r. (removeAll SetLogfileRead (trace r), result r))
     (mount (colab_auth\<lparr>mount_DEBUG := True\<rparr>) ''/content/drive'' False)
   = map_option (\<lambda>r. (removeAll SetLogfileRead (trace r), result r))
     (mount (colab_auth\<lparr>mount_DEBUG := False\<rparr>) ''/content/drive'' False)
   \<and> map_option (\<lambda>r. SetLogfileRead \<in> set (trace r))
     (mount (colab_auth\<lparr>mount_DEBUG := True\<rparr>) ''/content/drive'' False) = Some True
   \<and> map_option (\<lambda>r. SetLogfileRead \<in> set (trace r))
     (mount (colab_auth\<lparr>mount_DEBUG := False\<rparr>) ''/content/drive'' False) = Some False"
proof -
  have a: "map_option (\<lambda>r. SetLogfileRead \<in> set (trace r))
     (mount (colab_auth\<lparr>mount_DEBUG := True\<rparr>) ''/content/drive'' False) = Some True"
    by code_simp
  have b: "map_option (\<lambda>r. SetLogfileRead \<in> set (trace r))
     (mount (colab_auth\<lparr>mount_DEBUG := False\<rparr>) ''/content/drive'' False) = Some False"
    by code_simp
  show ?thesis
    using debug_flag_only_sets_logfile [where w = colab_auth and b = True and b' = False
        and mp = "''/content/drive''" and force_remount = False] a b
    by simp
qed

subsection \<open>A mountpoint that fails the checks\<close>



text \<open>
  C5, as amended. Every run that ends in one of the three \<^verbatim>\<open>ValueError\<close>s of lines 95 to
  99 has by then sent the clean-up command (\<^verbatim>\<open>umount -f\<close>, \<^verbatim>\<open>umount\<close>, \<^verbatim>\<open>pkill -9\<close>) and seen
  both of its waits return. What has not happened is everything after the checks: the
  whole exchange with the session is the prompt setting, the clean-up, and
  \<^verbatim>\<open>d.terminate(force=True)\<close>.
\<close>

theorem validation_error_follows_cleanup:
  assumes "mount w mp force_remount = Some r"
    and "result r = Inl (ValueError msg)"
    and "msg \<in> set validation_messages"
  shows "cleans_up w
    \<and> dialogue (trace r) = prelude_events w (expanduser w mp) @ [Terminated True]"
  using assms(1)
proof (cases rule: mount_cases)
  case (bad_config h c)
  with assms(2,3) config_msg_not_validation show ?thesis by auto
next
  case (spawned evs)
  from spawned(2) show ?thesis
  proof (cases rule: session_cases)
    case (prelude_raised k e)
    with assms(2) drive_errors show ?thesis by fastforce
  next
    case (rejected qs e)
    have "dialogue qs = []"
      using dialogue_check_mountpoint [of "fs_at w AfterCleanup" "expanduser w mp"]
      by (simp add: rejected(2))
    moreover have "dialogue (prelude_events w (expanduser w mp))
        = prelude_events w (expanduser w mp)"
      by (simp add: dialogue_def prelude_events_def)
    moreover have "dialogue [Terminated True] = [Terminated True]"
      by (simp add: dialogue_def)
    ultimately show ?thesis
      using rejected spawned(3) by simp
  next
    case (launch_raised qs k evs2 e)
    with assms(2) drive_errors show ?thesis by fastforce
  next
    case (loop_raised k evs3 e)
    with assms(2,3) await_errors [OF loop_raised(2)] show ?thesis
      by (auto simp: validation_messages_def)
  next
    case (handed_off k evs3 evs4)
    with assms(2) handoff_errors show ?thesis by fastforce
  qed
qed (use assms(2) in auto)

theorem validation_error_follows_cleanup_witness:
  "map_option result (mount colab_symlink ''/content/drive'' False)
     = Some (Inl (ValueError ''Mountpoint must not be a symlink''))
   \<and> ''Mountpoint must not be a symlink'' \<in> set validation_messages
   \<and> cleans_up colab_symlink
   \<and> map_option (\<lambda>r. dialogue (trace r)) (mount colab_symlink ''/content/drive'' False)
       = Some (prelude_events colab_symlink ''/content/drive'' @ [Terminated True])"
proof -
  have x: "expanduser colab_symlink ''/content/drive'' = ''/content/drive''" by code_simp
  have "mount colab_symlink ''/content/drive'' False \<noteq> None" by code_simp
  then obtain r where r: "mount colab_symlink ''/content/drive'' False = Some r" by auto
  have v: "map_option result (mount colab_symlink ''/content/drive'' False)
     = Some (Inl (ValueError ''Mountpoint must not be a symlink''))" by code_simp
  with r have v': "result r = Inl (ValueError ''Mountpoint must not be a symlink'')" by simp
  have m: "''Mountpoint must not be a symlink'' \<in> set validation_messages"
    by (simp add: validation_messages_def)
  from validation_error_follows_cleanup [OF r v' m] r v m show ?thesis by (simp add: x)
qed

text \<open>
  C5 as stated (no destructive command is issued before the validation error) fails, and
  by design: the comment on line 92 says the mountpoint is checked only after the
  unmount and the kill. In the run below the mountpoint is a symbolic link; the
  clean-up command is the fourth entry of the exchange, the error comes after it.
\<close>

theorem validation_error_follows_cleanup_counterexample:
  "map_option result (mount colab_symlink ''/content/drive'' False)
     = Some (Inl (ValueError ''Mountpoint must not be a symlink''))
   \<and> map_option (\<lambda>r. dialogue (trace r)) (mount colab_symlink ''/content/drive'' False)
     = Some [SentLine (''export PS1='' @ [DQ] @ ''root@colab-1f: '' @ [DQ]),
             Expected [Str ''root@colab-1f: ''] (Matched 0 []),
             Expected [Str ''root@colab-1f: ''] (Matched 0 []),
             SentLine ''umount -f /content/drive || umount /content/drive; pkill -9 -x drive'',
             Expected [Str ''pkill''] (Matched 0 []),
             Expected [Str ''root@colab-1f: ''] (Matched 0 []),
             Terminated True]"
  by code_simp

subsection \<open>The success marker right after the launch\<close>

text \<open>
  C1, as amended. In every run that launches the drive binary and whose first wait of
  the loop reports the success marker, provided that the wait for \<^verbatim>\<open>Stopped\<close> and the wait
  for end-of-input both return, that the child is then dead and that its exit status
  is 0: after that first wait \<^verbatim>\<open>mount\<close> sends control-Z, waits for \<^verbatim>\<open>Stopped\<close>, sends
  \<^verbatim>\<open>bg; disown; exit\<close> and waits for end-of-input, in this order and with nothing in
  between; it then prints \<^verbatim>\<open>Mounted at\<close> followed by the mountpoint and returns normally.
\<close>

theorem mount_success_at_once:
  assumes "spawns w mp force_remount"
    and "launches w (expanduser w mp)"
    and "expect_outcome w 5 (await_patterns (shell_prompt w)) = Matched 0 g"
    and "matched (expect_outcome w 6 [Str ''Stopped''])"
    and "matched (expect_outcome w 7 [EOF_pattern])"
    and "\<not> isalive w"
    and "exitstatus w = Some 0"
  shows "\<exists>r. mount w mp force_remount = Some r
    \<and> dialogue (trace r) =
        launch_dialogue w (expanduser w mp)
        @ [Expected (await_patterns (shell_prompt w)) (Matched 0 g),
           SentControl CHR ''z'',
           Expected [Str ''Stopped''] (expect_outcome w 6 [Str ''Stopped'']),
           SentLine ''bg; disown; exit'',
           Expected [EOF_pattern] (expect_outcome w 7 [EOF_pattern])]
    \<and> last (trace r) = Print (''Mounted at '' @ expanduser w mp)
    \<and> result r = Inr ()"
proof -
  have s7: "Suc 6 = 7" by simp
  have h: "handoff w 6 (expanduser w mp) =
    ([SentControl CHR ''z'',
      Expected [Str ''Stopped''] (expect_outcome w 6 [Str ''Stopped'']),
      SentLine ''bg; disown; exit'',
      Expected [EOF_pattern] (expect_outcome w 7 [EOF_pattern]),
      Print (''Mounted at '' @ expanduser w mp)], Inr ())"
    using handoff_clean [of w 6 "expanduser w mp"] assms(4-7) by (simp add: s7)
  have l: "await_outcome (expect_outcome w) (getpass w) (shell_prompt w) 5 0 []
    = Some (6, [Expected (await_patterns (shell_prompt w)) (Matched 0 g)], None)"
    using await_at_once [of "expect_outcome w" 5 "shell_prompt w" g "getpass w" 0 "[]"] assms(3)
    by simp
  show ?thesis
    by (simp add: mount_spawns [OF assms(1)] session_launches [OF assms(2)] l h)
      (simp add: dialogue_def)
qed

theorem mount_success_at_once_witness:
  "spawns colab ''/content/drive'' False
   \<and> launches colab ''/content/drive''
   \<and> expect_outcome colab 5 (await_patterns (shell_prompt colab)) = Matched 0 []
   \<and> matched (expect_outcome colab 6 [Str ''Stopped''])
   \<and> matched (expect_outcome colab 7 [EOF_pattern])
   \<and> \<not> isalive colab
   \<and> exitstatus colab = Some 0
   \<and> map_option (\<lambda>r. (last (trace r), result r)) (mount colab ''/content/drive'' False)
       = Some (Print ''Mounted at /content/drive'', Inr ())"
proof -
  have x: "expanduser colab ''/content/drive'' = ''/content/drive''"
    by (simp add: colab_def)
  have a: "spawns colab ''/content/drive'' False" by code_simp
  have b: "launches colab (expanduser colab ''/content/drive'')" by code_simp
  have c: "expect_outcome colab 5 (await_patterns (shell_prompt colab)) = Matched 0 []"
    by code_simp
  have d: "matched (expect_outcome colab 6 [Str ''Stopped''])" by code_simp
  have e: "matched (expect_outcome colab 7 [EOF_pattern])" by code_simp
  have f: "\<not> isalive colab" by code_simp
  have g: "exitstatus colab = Some 0" by code_simp
  from mount_success_at_once [OF a b c d e f g]
  have "map_option (\<lambda>r. (last (trace r), result r)) (mount colab ''/content/drive'' False)
       = Some (Print ''Mounted at /content/drive'', Inr ())"
    by (auto simp: x)
  with a b c d e f g show ?thesis by (simp add: x)
qed

text \<open>
  C1 as stated (every run in which the success marker is seen right after the launch
  returns a success outcome) fails: in the run below the marker is seen at once and the
  whole protocol is carried out, but bash exits with status 1 and line 140 raises
  \<^verbatim>\<open>AssertionError\<close>.
\<close>

theorem mount_success_at_once_counterexample:
  "expect_outcome colab_exit1 5 (await_patterns (shell_prompt colab_exit1)) = Matched 0 []
   \<and> map_option (\<lambda>r. drop 9 (dialogue (trace r))) (mount colab_exit1 ''/content/drive'' False)
       = Some [Expected (await_patterns (shell_prompt colab_exit1)) (Matched 0 []),
               SentControl CHR ''z'',
               Expected [Str ''Stopped''] (Matched 0 []),
               SentLine ''bg; disown; exit'',
               Expected [EOF_pattern] (Matched 0 [])]
   \<and> exitstatus colab_exit1 = Some 1
   \<and> map_option result (mount colab_exit1 ''/content/drive'' False) = Some (Inl AssertionError)"
  by code_simp

subsection \<open>One authorization round\<close>

text \<open>
  C2. In every run that launches the drive binary, whose first wait of the loop reports
  the authorization line (pattern 2, with \<open>url\<close> as group 1), whose \<^verbatim>\<open>getpass\<close> call returns
  \<open>code\<close>, and whose next wait reports the success marker: \<^verbatim>\<open>getpass\<close> is called exactly
  once in the whole run, with a message that starts with the captured text; right
  after it the code followed by a newline is sent; and after the second wait \<^verbatim>\<open>mount\<close>
  goes on to the success path, whose first step is control-Z. (The second wait watches
  for the message shown to the user where the first watched for the shell prompt:
  line 133 has assigned it to \<^verbatim>\<open>prompt\<close>.)
\<close>

theorem mount_one_authorization:
  assumes "spawns w mp force_remount"
    and "launches w (expanduser w mp)"
    and "expect_outcome w 5 (await_patterns (shell_prompt w)) = Matched 2 url"
    and "getpass w 0 (auth_prompt url) = Some code"
    and "expect_outcome w 6 (await_patterns (auth_prompt url)) = Matched 0 g"
  shows "\<exists>r. mount w mp force_remount = Some r
    \<and> filter is_getpass (trace r) = [GetPass (auth_prompt url)]
    \<and> prefix url (auth_prompt url)
    \<and> prefix
        (launch_dialogue w (expanduser w mp)
         @ [Expected (await_patterns (shell_prompt w)) (Matched 2 url),
            GetPass (auth_prompt url),
            Sent (code @ [LF]),
            Expected (await_patterns (auth_prompt url)) (Matched 0 g),
            SentControl CHR ''z''])
        (dialogue (trace r))"
proof -
  have l: "await_outcome (expect_outcome w) (getpass w) (shell_prompt w) 5 0 []
    = Some (7, [Expected (await_patterns (shell_prompt w)) (Matched 2 url),
                GetPass (auth_prompt url), Sent (code @ [LF]),
                Expected (await_patterns (auth_prompt url)) (Matched 0 g)], None)"
    using await_auth [of "expect_outcome w" 5 "shell_prompt w" url "getpass w" 0 code "[]"]
      await_at_once [of "expect_outcome w" 6 "auth_prompt url" g "getpass w" 1]
      assms(3-5)
    by (simp add: eval_nat_numeral)
  obtain rest r where h: "handoff w 7 (expanduser w mp) = (SentControl CHR ''z'' # rest, r)"
    and n: "filter is_getpass rest = []"
    using handoff_shape by blast
  show ?thesis
    by (simp add: mount_spawns [OF assms(1)] session_launches [OF assms(2)] l h n)
      (simp add: dialogue_def auth_prompt_def)
qed

theorem mount_one_authorization_witness:
  "spawns colab_auth ''/content/drive'' False
   \<and> launches colab_auth ''/content/drive''
   \<and> expect_outcome colab_auth 5 (await_patterns (shell_prompt colab_auth)) = Matched 2 auth_line
   \<and> getpass colab_auth 0 (auth_prompt auth_line) = Some ''4/Xy''
   \<and> expect_outcome colab_auth 6 (await_patterns (auth_prompt auth_line)) = Matched 0 []
   \<and> map_option (\<lambda>r. filter is_getpass (trace r)) (mount colab_auth ''/content/drive'' False)
       = Some [GetPass (auth_prompt auth_line)]"
proof -
  have x: "expanduser colab_auth ''/content/drive'' = ''/content/drive''"
    by (simp add: colab_auth_def colab_def)
  have a: "spawns colab_auth ''/content/drive'' False" by code_simp
  have b: "launches colab_auth (expanduser colab_auth ''/content/drive'')" by code_simp
  have c: "expect_outcome colab_auth 5 (await_patterns (shell_prompt colab_auth))
      = Matched 2 auth_line"
    by code_simp
  have d: "getpass colab_auth 0 (auth_prompt auth_line) = Some ''4/Xy''" by code_simp
  have e: "expect_outcome colab_auth 6 (await_patterns (auth_prompt auth_line)) = Matched 0 []"
    by code_simp
  from mount_one_authorization [OF a b c d e]
  have "map_option (\<lambda>r. filter is_getpass (trace r)) (mount colab_auth ''/content/drive'' False)
       = Some [GetPass (auth_prompt auth_line)]"
    by auto
  with a b c d e show ?thesis by (simp add: x)
qed

subsection \<open>The shell prompt coming back\<close>

text \<open>
  When the first wait of the loop reports the shell prompt, line 129 terminates the
  session and line 130 raises \<^verbatim>\<open>ValueError('mount failed')\<close>.
\<close>

lemma mount_failed_at_once:
  assumes "spawns w mp force_remount"
    and "launches w (expanduser w mp)"
    and "expect_outcome w 5 (await_patterns (shell_prompt w)) = Matched 1 g"
  shows "\<exists>r. mount w mp force_remount = Some r
    \<and> result r = Inl (ValueError ''mount failed'')
    \<and> last (trace r) = Terminated True"
proof -
  have "await_outcome (expect_outcome w) (getpass w) (shell_prompt w) 5 0 []
    = Some (6, [Expected (await_patterns (shell_prompt w)) (Matched 1 g), Terminated True],
            Some (ValueError ''mount failed''))"
    by (subst await_outcome.simps) (simp add: assms(3) Let_def)
  then show ?thesis
    by (simp add: mount_spawns [OF assms(1)] session_launches [OF assms(2)])
qed

text \<open>
  C3. The claim is about every round of the loop, and after an authorization round the
  code does not do what it says. In the run below the drive binary asks for a code, the
  user enters one, the binary exits and bash prints its prompt again: the text read
  during the seventh wait contains the shell prompt. But that wait watches for the
  success marker, for the message shown to the user (the value line 133 gave to
  \<^verbatim>\<open>prompt\<close>) and for the authorization line; the shell prompt is none of them, the wait
  raises \<^verbatim>\<open>TIMEOUT\<close>, and \<^verbatim>\<open>d.terminate(force=True)\<close> is never called.
\<close>

theorem prompt_after_authorization_times_out:
  "sublist (shell_prompt colab_crash) (''Authorization failed'' @ [CR, LF] @ colab_prompt)
   \<and> crash_after_auth ! 6 = Output (''Authorization failed'' @ [CR, LF] @ colab_prompt)
   \<and> map_option result (mount colab_crash ''/content/drive'' False) = Some (Inl TIMEOUT)
   \<and> map_option (\<lambda>r. Terminated True \<in> set (trace r))
        (mount colab_crash ''/content/drive'' False) = Some False
   \<and> map_option (\<lambda>r. last (trace r)) (mount colab_crash ''/content/drive'' False)
       = Some (Expected [Str success, Str (auth_prompt auth_line), auth_url_re] TimedOut)"
  by code_simp

subsection \<open>The exit status of bash\<close>

text \<open>
  C7. In every run in which the wait for end-of-input (line 138, the step after
  \<^verbatim>\<open>bg; disown; exit\<close>) has returned, an exit status other than 0 makes \<^verbatim>\<open>mount\<close> raise
  \<^verbatim>\<open>AssertionError\<close> (line 139 or 140): the call does not return normally.
\<close>

theorem nonzero_exit_status_raises:
  assumes "mount w mp force_remount = Some r"
    and "Expected [EOF_pattern] (Matched i g) \<in> set (trace r)"
    and "exitstatus w \<noteq> Some 0"
  shows "result r = Inl AssertionError"
  using assms(1)
proof (cases rule: mount_cases)
  case no_spawn
  have "set (trace r) \<subseteq> set (head_trace w (expanduser w mp))"
    using no_spawn(2) [symmetric] by simp
  with assms(2) head_trace_no_expected show ?thesis by blast
next
  case (spawned evs)
  with assms(2) head_trace_no_expected
  have ev: "Expected [EOF_pattern] (Matched i g) \<in> set evs" by auto
  from spawned(2) show ?thesis
  proof (cases rule: session_cases)
    case (prelude_raised k e)
    from drive_expected [OF prelude_raised(1) ev] show ?thesis
      by (simp add: prelude_def)
  next
    case (rejected qs e)
    with ev check_mountpoint_no_expected [of "[EOF_pattern]" "Matched i g"
        "fs_at w AfterCleanup" "expanduser w mp"]
    show ?thesis by (auto simp: prelude_events_def)
  next
    case (launch_raised qs k evs2 e)
    with ev check_mountpoint_no_expected [of "[EOF_pattern]" "Matched i g"
        "fs_at w AfterCleanup" "expanduser w mp"]
    have "Expected [EOF_pattern] (Matched i g) \<in> set evs2"
      by (auto simp: prelude_events_def)
    from drive_expected [OF launch_raised(3) this] show ?thesis
      by (simp add: launch_def)
  next
    case (loop_raised k evs3 e)
    have b: "Expected [EOF_pattern] (Matched i g) \<notin> set (before_loop w (expanduser w mp)
        (drive_cmd w (expanduser w mp)))"
      using check_mountpoint_no_expected [of "[EOF_pattern]" "Matched i g"
        "fs_at w AfterCleanup" "expanduser w mp"]
      by (auto simp: before_loop_def prelude_events_def launch_events_def)
    from await_events [OF loop_raised(2)]
    have "Expected [EOF_pattern] (Matched i g) \<notin> set evs3"
      by (auto simp: list_all_iff)
    with b ev loop_raised(3) show ?thesis by simp
  next
    case (handed_off k evs3 evs4)
    have b: "Expected [EOF_pattern] (Matched i g) \<notin> set (before_loop w (expanduser w mp)
        (drive_cmd w (expanduser w mp)))"
      using check_mountpoint_no_expected [of "[EOF_pattern]" "Matched i g"
        "fs_at w AfterCleanup" "expanduser w mp"]
      by (auto simp: before_loop_def prelude_events_def launch_events_def)
    from await_events [OF handed_off(2)]
    have "Expected [EOF_pattern] (Matched i g) \<notin> set evs3"
      by (auto simp: list_all_iff)
    with b ev handed_off(4) have "Expected [EOF_pattern] (Matched i g) \<in> set evs4" by simp
    from handoff_EOF [OF handed_off(3) this assms(3)] show ?thesis .
  qed
qed (use assms(2) in auto)

theorem nonzero_exit_status_raises_witness:
  "map_option (\<lambda>r. Expected [EOF_pattern] (Matched 0 []) \<in> set (trace r))
      (mount colab_exit1 ''/content/drive'' False) = Some True
   \<and> exitstatus colab_exit1 \<noteq> Some 0
   \<and> map_option result (mount colab_exit1 ''/content/drive'' False) = Some (Inl AssertionError)"
proof -
  have "mount colab_exit1 ''/content/drive'' False \<noteq> None" by code_simp
  then obtain r where r: "mount colab_exit1 ''/content/drive'' False = Some r" by auto
  have a: "map_option (\<lambda>r. Expected [EOF_pattern] (Matched 0 []) \<in> set (trace r))
      (mount colab_exit1 ''/content/drive'' False) = Some True" by code_simp
  with r have a': "Expected [EOF_pattern] (Matched 0 []) \<in> set (trace r)" by simp
  have b: "exitstatus colab_exit1 \<noteq> Some 0" by code_simp
  from nonzero_exit_status_raises [OF r a' b] r a b show ?thesis by simp
qed

end
